theory Spec2Isabelle
  imports Complex_Main
begin

section \<open>The Node Store\<close>

text \<open>
  \<^verbatim>\<open>column.cpp\<close> drives three collaborators whose code lives in other files: the
  packed array primitive (\<^verbatim>\<open>Array\<close>), the slab allocator and the leaf callbacks.
  They are modelled here from their interface in the specification (section 6), as a
  store of nodes addressed by refs. A ref is a non-zero multiple of 8; ref 0 is "no node".
  Element counts (\<^verbatim>\<open>size_t\<close>) are naturals and slot values (\<^verbatim>\<open>int_fast64_t\<close>) are
  integers; the one unsigned operation of \<^verbatim>\<open>build\<close> that can wrap around,
  \<^verbatim>\<open>elems_per_child *= REALM_MAX_BPNODE_SIZE\<close>, is written with its modulus.
\<close>

type_synonym ref_type = nat

datatype array_type = type_Normal | type_InnerBptreeNode | type_HasRefs

text \<open>A leaf is opaque to the engine: only its element count is kept.\<close>

datatype node = Leaf nat | Arr array_type "int list"

datatype logic_error_kind = column_not_nullable | type_mismatch

datatype error =
    Failure                      \<comment> \<open>an exception thrown by the Node Store or a leaf callback\<close>
  | LogicError logic_error_kind  \<comment> \<open>\<^verbatim>\<open>throw LogicError{...}\<close>\<close>
  | Assertion_Failed             \<comment> \<open>\<^verbatim>\<open>REALM_ASSERT\<close> terminates the process\<close>
  | Invalid_Access               \<comment> \<open>a read through a dangling ref or past the end of an array\<close>

text \<open>
  The store: the live nodes in allocation order, the failure to inject (\<open>Some k\<close>: the
  operation after \<open>k\<close> successful throwing operations raises), and the sizes that
  \<^verbatim>\<open>create_leaf\<close> was called with, in call order.
\<close>

record store =
  nodes :: "(ref_type \<times> node) list"
  fail_in :: "nat option"
  created_leaves :: "nat list"

type_synonym 'a result = "(error + 'a) \<times> store"

text \<open>Sequencing: the second operation runs when the first returns; an exception of the
  first propagates, with the store as the first left it.\<close>

definition then_do :: "'a result \<Rightarrow> ('a \<Rightarrow> store \<Rightarrow> 'b result) \<Rightarrow> 'b result" where
  "then_do m f = (case m of (Inl e, s) \<Rightarrow> (Inl e, s) | (Inr x, s) \<Rightarrow> f x s)"

text \<open>Modelled from the spec: every operation marked \<^verbatim>\<open>// Throws\<close> may raise.\<close>

definition throws :: "store \<Rightarrow> error + store" where
  "throws s =
     (case fail_in s of
        None \<Rightarrow> Inr s
      | Some k \<Rightarrow> if k = 0 then Inl Failure else Inr (s\<lparr>fail_in := Some (k - 1)\<rparr>))"

text \<open>Modelled from the spec: the allocator hands out a ref that is not live, non-zero
  and 8-byte aligned.\<close>

definition new_ref :: "(ref_type \<times> node) list \<Rightarrow> ref_type" where
  "new_ref h = 8 * Suc (foldr max (map fst h) 0 div 8)"

text \<open>Modelled from the spec: \<^verbatim>\<open>create_leaf(requested_size) -> Ref\<close>, the leaf callback.\<close>

definition create_leaf :: "nat \<Rightarrow> store \<Rightarrow> ref_type result" where
  "create_leaf sz s =
     (let s0 = s\<lparr>created_leaves := created_leaves s @ [sz]\<rparr> in
      case throws s0 of
        Inl e \<Rightarrow> (Inl e, s0)
      | Inr s1 \<Rightarrow>
          (let r = new_ref (nodes s1)
           in (Inr r, s1\<lparr>nodes := nodes s1 @ [(r, Leaf sz)]\<rparr>)))"

text \<open>Modelled from the spec: \<^verbatim>\<open>create(node_kind) -> Ref\<close>, an empty array.\<close>

definition array_create :: "array_type \<Rightarrow> store \<Rightarrow> ref_type result" where
  "array_create ty s =
     (case throws s of
        Inl e \<Rightarrow> (Inl e, s)
      | Inr s1 \<Rightarrow>
          (let r = new_ref (nodes s1)
           in (Inr r, s1\<lparr>nodes := nodes s1 @ [(r, Arr ty [])]\<rparr>)))"

fun add_slot :: "int \<Rightarrow> node \<Rightarrow> node" where
  "add_slot v (Arr ty xs) = Arr ty (xs @ [v])"
| "add_slot v (Leaf n) = Leaf n"

fun set_slot :: "nat \<Rightarrow> int \<Rightarrow> node \<Rightarrow> node" where
  "set_slot i v (Arr ty xs) = Arr ty (xs[i := v])"
| "set_slot i v (Leaf n) = Leaf n"

definition update_node :: "ref_type \<Rightarrow> (node \<Rightarrow> node) \<Rightarrow> (ref_type \<times> node) list \<Rightarrow> (ref_type \<times> node) list" where
  "update_node r f h = map (\<lambda>e. if fst e = r then (fst e, f (snd e)) else e) h"

text \<open>Modelled from the spec: \<^verbatim>\<open>append(array_ref, slot_value)\<close>; a failed append leaves
  the array as it was.\<close>

definition array_add :: "ref_type \<Rightarrow> int \<Rightarrow> store \<Rightarrow> unit result" where
  "array_add r v s =
     (case throws s of
        Inl e \<Rightarrow> (Inl e, s)
      | Inr s1 \<Rightarrow> (Inr (), s1\<lparr>nodes := update_node r (add_slot v) (nodes s1)\<rparr>))"

text \<open>The slots of a node that are refs: even and non-zero, in arrays that hold refs.\<close>

fun child_refs :: "node \<Rightarrow> ref_type list" where
  "child_refs (Leaf n) = []"
| "child_refs (Arr ty xs) =
     (if ty = type_Normal then [] else map nat (filter (\<lambda>v. 0 < v \<and> even v) xs))"

definition free_ref :: "ref_type \<Rightarrow> (ref_type \<times> node) list \<Rightarrow> (ref_type \<times> node) list" where
  "free_ref r h = filter (\<lambda>e. fst e \<noteq> r) h"

text \<open>Modelled from the spec: \<^verbatim>\<open>destroy_deep(ref)\<close>, the recursive free, with the nodes
  still to be freed kept on a work list. It does not raise.\<close>

function destroy_refs :: "ref_type list \<Rightarrow> (ref_type \<times> node) list \<Rightarrow> (ref_type \<times> node) list" where
  "destroy_refs [] h = h"
| "destroy_refs (r # rs) h =
     (case map_of h r of
        None \<Rightarrow> destroy_refs rs h
      | Some n \<Rightarrow> destroy_refs (child_refs n @ rs) (free_ref r h))"
  by pat_completeness auto
termination
proof (relation "measures [\<lambda>(rs, h). length h, \<lambda>(rs, h). length rs]")
  show "wf (measures [\<lambda>(rs, h). length h, \<lambda>(rs, h). length rs])"
    by simp
next
  fix r :: ref_type and rs :: "ref_type list" and h :: "(ref_type \<times> node) list"
  assume "map_of h r = None"
  then show "((rs, h), (r # rs, h)) \<in> measures [\<lambda>(rs, h). length h, \<lambda>(rs, h). length rs]"
    by simp
next
  fix r :: ref_type and rs :: "ref_type list" and h :: "(ref_type \<times> node) list" and n :: node
  assume "map_of h r = Some n"
  then have "(r, n) \<in> set h"
    by (rule map_of_SomeD)
  then have "length (filter (\<lambda>e. fst e \<noteq> r) h) < length h"
    by (intro length_filter_less [of "(r, n)"]) auto
  then show "((child_refs n @ rs, free_ref r h), (r # rs, h))
      \<in> measures [\<lambda>(rs, h). length h, \<lambda>(rs, h). length rs]"
    by (simp add: free_ref_def)
qed

definition destroy_deep :: "ref_type \<Rightarrow> store \<Rightarrow> store" where
  "destroy_deep r s = s\<lparr>nodes := destroy_refs [r] (nodes s)\<rparr>"

definition from_ref :: "ref_type \<Rightarrow> int" where
  "from_ref v = int v"

section \<open>\<^verbatim>\<open>ColumnBase::build\<close>\<close>

text \<open>
  \<open>F\<close> is \<^verbatim>\<open>REALM_MAX_BPNODE_SIZE\<close>, a macro defined outside this file. The function
  recurses through its own loops, and for \<open>F < 2\<close> it need not return, so a first
  argument bounds the depth of calls and loop iterations: \<open>None\<close> is "not yet returned".
  \<open>build_body\<close> is the function up to the \<^verbatim>\<open>for (;;)\<close>, \<open>build_loop_body\<close> one
  iteration of that loop inside the outer \<^verbatim>\<open>try\<close>, \<open>build_children_body\<close> one
  iteration of the inner \<^verbatim>\<open>while\<close>; each takes the functions it calls as arguments.
  A result \<open>Inr (node, rest_size)\<close> is the returned ref with the value written back
  through \<^verbatim>\<open>rest_size_ptr\<close>; \<open>Inl e\<close> is the exception that propagates, after the
  handlers on its way have run.
\<close>

type_synonym build_fun = "nat \<Rightarrow> nat \<Rightarrow> nat \<Rightarrow> store \<Rightarrow> (ref_type \<times> nat) result option"

type_synonym build_loop_fun =
  "nat \<Rightarrow> nat \<Rightarrow> nat \<Rightarrow> nat \<Rightarrow> nat \<Rightarrow> ref_type \<Rightarrow> nat \<Rightarrow> store \<Rightarrow> (ref_type \<times> nat) result option"

type_synonym build_children_fun =
  "nat \<Rightarrow> ref_type \<Rightarrow> nat \<Rightarrow> nat \<Rightarrow> nat \<Rightarrow> store \<Rightarrow> nat result option"

definition build_body :: "build_loop_fun \<Rightarrow> build_fun" where
  "build_body loop F rest_size fixed_height s =
     (let orig_rest_size = rest_size;
          elems_per_child = F;
          leaf_size = min elems_per_child rest_size;
          rest_size' = rest_size - leaf_size
      in case create_leaf leaf_size s of
           (Inl e, s1) \<Rightarrow> Some (Inl e, s1)
         | (Inr node, s1) \<Rightarrow>
             loop F fixed_height orig_rest_size rest_size' elems_per_child node 1 s1)"

definition build_loop_body :: "build_children_fun \<Rightarrow> build_loop_fun \<Rightarrow> build_loop_fun" where
  "build_loop_body children loop F fixed_height orig_rest_size rest_size elems_per_child node height s =
     (if (if fixed_height > 0 then fixed_height = height else rest_size = 0)
      then Some (Inr (node, rest_size), s)
      else
       (case array_create type_InnerBptreeNode s of
          (Inl e, s1) \<Rightarrow> Some (Inl e, if node \<noteq> 0 then destroy_deep node s1 else s1)
        | (Inr new_inner_node, s1) \<Rightarrow>
       (case array_add new_inner_node (1 + 2 * int elems_per_child) s1 of
          (Inl e, s2) \<Rightarrow>
            (let s3 = destroy_deep new_inner_node s2
             in Some (Inl e, if node \<noteq> 0 then destroy_deep node s3 else s3))
        | (Inr _, s2) \<Rightarrow>
       (case array_add new_inner_node (from_ref node) s2 of
          (Inl e, s3) \<Rightarrow>
            (let s4 = destroy_deep new_inner_node s3
             in Some (Inl e, if node \<noteq> 0 then destroy_deep node s4 else s4))
        | (Inr _, s3) \<Rightarrow>
       \<comment> \<open>\<^verbatim>\<open>node = 0\<close>: from here on the outer handler destroys nothing\<close>
       (case children F new_inner_node height rest_size 1 s3 of
          None \<Rightarrow> None
        | Some (Inl e, s4) \<Rightarrow> Some (Inl e, destroy_deep new_inner_node s4)
        | Some (Inr rest_size', s4) \<Rightarrow>
       (case array_add new_inner_node (1 + 2 * int (orig_rest_size - rest_size')) s4 of
          (Inl e, s5) \<Rightarrow> Some (Inl e, destroy_deep new_inner_node s5)
        | (Inr _, s5) \<Rightarrow>
            loop F fixed_height orig_rest_size rest_size'
              (elems_per_child * F mod 2 ^ 64) new_inner_node (height + 1) s5))))))"

definition build_children_body :: "build_fun \<Rightarrow> build_children_fun \<Rightarrow> build_children_fun" where
  "build_children_body bld children F new_inner_node height rest_size num_children s =
     (if rest_size > 0 \<and> num_children \<noteq> F
      then
       (case bld F rest_size height s of
          None \<Rightarrow> None
        | Some (Inl e, s1) \<Rightarrow> Some (Inl e, s1)
        | Some (Inr (child, rest_size'), s1) \<Rightarrow>
       (case array_add new_inner_node (from_ref child) s1 of
          (Inl e, s2) \<Rightarrow> Some (Inl e, destroy_deep child s2)
        | (Inr _, s2) \<Rightarrow>
            children F new_inner_node height rest_size' (num_children + 1) s2))
      else Some (Inr rest_size, s))"

text \<open>The three functions at depth \<open>k\<close>, each calling the others at depth \<open>k - 1\<close>.\<close>

primrec build_rec :: "nat \<Rightarrow> build_fun \<times> build_loop_fun \<times> build_children_fun" where
  "build_rec 0 =
     ((\<lambda>F rest_size fixed_height s. None),
      (\<lambda>F fixed_height orig_rest_size rest_size elems_per_child node height s. None),
      (\<lambda>F new_inner_node height rest_size num_children s. None))"
| "build_rec (Suc k) =
     (case build_rec k of
        (bld, loop, children) \<Rightarrow>
          (build_body loop, build_loop_body children loop, build_children_body bld children))"

definition build :: "nat \<Rightarrow> build_fun" where
  "build k = fst (build_rec k)"

definition build_loop :: "nat \<Rightarrow> build_loop_fun" where
  "build_loop k = fst (snd (build_rec k))"

definition build_children :: "nat \<Rightarrow> build_children_fun" where
  "build_children k = snd (snd (build_rec k))"

section \<open>\<^verbatim>\<open>ColumnBaseSimple\<close>: root replacement, export, root growth\<close>

text \<open>
  An \<^verbatim>\<open>Array\<close> accessor: the ref of the node it is attached to and its parent linkage.
  The parent, when there is one, is an array of the store whose slot
  \<open>m_ndx_in_parent\<close> holds the ref of this node.
\<close>

record Array =
  m_ref :: ref_type
  m_parent :: "ref_type option"
  m_ndx_in_parent :: nat

record TreeInsertBase =
  m_split_offset :: nat
  m_split_size :: nat

fun is_inner_bptree_node :: "node \<Rightarrow> bool" where
  "is_inner_bptree_node (Arr ty xs) = (ty = type_InnerBptreeNode)"
| "is_inner_bptree_node (Leaf n) = False"

text \<open>Modelled from the spec: \<^verbatim>\<open>get(array_ref, index) -> slot_value\<close>; there is no value
  past the end of an array, and a leaf's payload is not read by the engine.\<close>

fun get :: "node \<Rightarrow> nat \<Rightarrow> int option" where
  "get (Arr ty xs) i = (if i < length xs then Some (xs ! i) else None)"
| "get (Leaf n) i = None"

text \<open>Modelled from the spec: \<^verbatim>\<open>update_parent(ref)\<close> stores the accessor's ref in the slot
  of its parent; without a parent it does nothing.\<close>

definition update_parent :: "Array \<Rightarrow> store \<Rightarrow> unit result" where
  "update_parent a s =
     (case m_parent a of
        None \<Rightarrow> (Inr (), s)
      | Some p \<Rightarrow>
         (case throws s of
            Inl e \<Rightarrow> (Inl e, s)
          | Inr s1 \<Rightarrow>
              (Inr (), s1\<lparr>nodes := update_node p (set_slot (m_ndx_in_parent a) (from_ref (m_ref a))) (nodes s1)\<rparr>)))"

text \<open>\<^verbatim>\<open>replace_root_array\<close>: the result is the new value of \<^verbatim>\<open>m_array\<close>.\<close>

definition replace_root_array :: "Array \<Rightarrow> Array \<Rightarrow> store \<Rightarrow> Array result" where
  "replace_root_array m_array leaf s =
     (let parent = m_parent m_array;
          ndx_in_parent = m_ndx_in_parent m_array;
          leaf' = leaf\<lparr>m_parent := parent, m_ndx_in_parent := ndx_in_parent\<rparr>
      in then_do (update_parent leaf' s) (\<lambda>_ s1. (Inr leaf', s1)))"

text \<open>
  \<^verbatim>\<open>ColumnBaseSimple::write\<close>, named \<open>write_slice\<close> here since \<open>write\<close> is a keyword
  of Isabelle: \<open>root_array\<close> is the node behind the accessor; \<^verbatim>\<open>BpTreeBase::write_subtree\<close>
  is defined in another file and is a parameter here.
\<close>

definition write_slice ::
  "(node \<Rightarrow> nat \<Rightarrow> nat \<Rightarrow> nat \<Rightarrow> 'h \<Rightarrow> 'o \<Rightarrow> 'r) \<Rightarrow> node \<Rightarrow> nat \<Rightarrow> nat \<Rightarrow> nat \<Rightarrow> 'h \<Rightarrow> 'o \<Rightarrow> error + 'r" where
  "write_slice write_subtree root_array slice_offset slice_size table_size handler out =
     (if \<not> is_inner_bptree_node root_array then Inl Assertion_Failed
      else Inr (write_subtree root_array slice_offset slice_size table_size handler out))"

text \<open>C++ \<^verbatim>\<open>%\<close> truncates towards zero.\<close>

definition c_rem :: "int \<Rightarrow> int \<Rightarrow> int" where
  "c_rem a b = sgn a * (\<bar>a\<bar> mod \<bar>b\<bar>)"

text \<open>
  The value of \<^verbatim>\<open>compact_form\<close>, with the short-circuit evaluation of \<^verbatim>\<open>&&\<close> and
  \<^verbatim>\<open>||\<close>: \<^verbatim>\<open>get(0)\<close> is only read from an inner node when appending.
\<close>

definition compact_form_of :: "bool \<Rightarrow> node \<Rightarrow> error + bool" where
  "compact_form_of is_append orig_root =
     (if \<not> is_append then Inr False
      else if \<not> is_inner_bptree_node orig_root then Inr True
      else (case get orig_root 0 of
              None \<Rightarrow> Inl Invalid_Access
            | Some v \<Rightarrow> Inr (c_rem v 2 \<noteq> 0)))"

text \<open>\<^verbatim>\<open>new BpTreeNode(alloc)\<close> allocates an accessor, not a node: it may only raise.\<close>

definition new_accessor :: "store \<Rightarrow> unit result" where
  "new_accessor s = (case throws s of Inl e \<Rightarrow> (Inl e, s) | Inr s1 \<Rightarrow> (Inr (), s1))"

text \<open>The node behind an accessor.\<close>

definition read_node :: "ref_type \<Rightarrow> store \<Rightarrow> node result" where
  "read_node r s = (case map_of (nodes s) r of None \<Rightarrow> (Inl Invalid_Access, s) | Some n \<Rightarrow> (Inr n, s))"

definition REALM_ASSERT :: "bool \<Rightarrow> store \<Rightarrow> unit result" where
  "REALM_ASSERT c s = (if c then (Inr (), s) else (Inl Assertion_Failed, s))"

text \<open>
  \<^verbatim>\<open>introduce_new_root\<close>. The first argument is the column's \<^verbatim>\<open>m_array\<close>
  (\<^verbatim>\<open>get_root_array()\<close>); the result is its new value. The function has no handler:
  an exception leaves the store as the operations before it made it.
\<close>

definition introduce_new_root :: "Array \<Rightarrow> ref_type \<Rightarrow> TreeInsertBase \<Rightarrow> bool \<Rightarrow> store \<Rightarrow> Array result" where
  "introduce_new_root orig_root new_sibling_ref state is_append s =
     then_do (new_accessor s) (\<lambda>_ s.
     then_do (array_create type_InnerBptreeNode s) (\<lambda>r s.
     (let new_root = \<lparr>m_ref = r, m_parent = m_parent orig_root,
                       m_ndx_in_parent = m_ndx_in_parent orig_root\<rparr>
      in
     then_do (update_parent new_root s) (\<lambda>_ s.
     then_do (read_node (m_ref orig_root) s) (\<lambda>orig s.
     then_do (compact_form_of is_append orig, s) (\<lambda>compact_form s.
     then_do (REALM_ASSERT (\<not> compact_form \<or> is_append) s) (\<lambda>_ s.
     then_do
       (if compact_form
        then array_add (m_ref new_root) (1 + 2 * int (m_split_offset state)) s
        else
          then_do (array_create type_Normal s) (\<lambda>new_offsets s.
          then_do (array_add new_offsets (int (m_split_offset state)) s) (\<lambda>_ s.
          array_add (m_ref new_root) (from_ref new_offsets) s))) (\<lambda>_ s.
     then_do (array_add (m_ref new_root) (from_ref (m_ref orig_root)) s) (\<lambda>_ s.
     then_do (array_add (m_ref new_root) (from_ref new_sibling_ref) s) (\<lambda>_ s.
     then_do (array_add (m_ref new_root) (1 + 2 * int (m_split_size state)) s) (\<lambda>_ s.
     replace_root_array orig_root new_root s)))))))))))"


section \<open>\<^verbatim>\<open>ColumnBase\<close>: the defaults\<close>

text \<open>The defaults do not look at the column \<open>c\<close>; a setter returns the column with its
  outcome.\<close>

definition is_nullable :: "'c \<Rightarrow> bool" where
  "is_nullable c = False"

definition is_null :: "'c \<Rightarrow> nat \<Rightarrow> bool" where
  "is_null c ndx = False"

definition set_null :: "'c \<Rightarrow> nat \<Rightarrow> (error + unit) \<times> 'c" where
  "set_null c ndx = (Inl (LogicError column_not_nullable), c)"

definition set_string :: "'c \<Rightarrow> nat \<Rightarrow> string \<Rightarrow> (error + unit) \<times> 'c" where
  "set_string c ndx v = (Inl (LogicError type_mismatch), c)"

section \<open>Auxiliary notions for the proofs\<close>

text \<open>Every node live in \<open>s\<close>, other than \<open>p\<close>, is live and the same in \<open>s'\<close>.\<close>

definition kept :: "ref_type option \<Rightarrow> store \<Rightarrow> store \<Rightarrow> bool" where
  "kept p s s' \<longleftrightarrow> (\<forall>k n. map_of (nodes s) k = Some n \<and> p \<noteq> Some k \<longrightarrow> map_of (nodes s') k = Some n)"

section \<open>The recursion equations of \<open>build\<close>\<close>

lemma build_0 [code]: "build 0 F rest_size fixed_height s = None"
  by (simp add: build_def)

lemma build_Suc [code]:
  "build (Suc k) F rest_size fixed_height s =
     build_body (build_loop k) F rest_size fixed_height s"
  by (simp add: build_def build_loop_def split: prod.split)

lemma build_loop_0 [code]:
  "build_loop 0 F fixed_height orig_rest_size rest_size elems_per_child node height s = None"
  by (simp add: build_loop_def)

lemma build_loop_Suc [code]:
  "build_loop (Suc k) F fixed_height orig_rest_size rest_size elems_per_child node height s =
     build_loop_body (build_children k) (build_loop k)
       F fixed_height orig_rest_size rest_size elems_per_child node height s"
  by (simp add: build_loop_def build_children_def split: prod.split)

lemma build_children_0 [code]:
  "build_children 0 F new_inner_node height rest_size num_children s = None"
  by (simp add: build_children_def)

lemma build_children_Suc [code]:
  "build_children (Suc k) F new_inner_node height rest_size num_children s =
     build_children_body (build k) (build_children k)
       F new_inner_node height rest_size num_children s"
  by (simp add: build_children_def build_def split: prod.split)

section \<open>Operations of the Node Store\<close>


lemma then_do_Inl_iff:
  "then_do m f = (Inl e, s') \<longleftrightarrow>
     m = (Inl e, s') \<or> (\<exists>y s1. m = (Inr y, s1) \<and> f y s1 = (Inl e, s'))"
  by (cases m) (auto simp: then_do_def split: sum.splits)

lemma throws_cases:
  "throws s = Inl Failure \<or>
   (\<exists>s'. throws s = Inr s' \<and> nodes s' = nodes s \<and> created_leaves s' = created_leaves s)"
  by (auto simp: throws_def split: option.splits if_splits)

lemma throws_None: "fail_in s = None \<Longrightarrow> throws s = Inr s"
  by (simp add: throws_def)

lemma new_accessor_Inl: "new_accessor s = (Inl e, s') \<Longrightarrow> e = Failure \<and> s' = s"
  using throws_cases [of s] by (auto simp: new_accessor_def split: sum.splits)

lemma array_create_Inl: "array_create ty s = (Inl e, s') \<Longrightarrow> e = Failure \<and> s' = s"
  using throws_cases [of s] by (auto simp: array_create_def Let_def split: sum.splits)

lemma array_add_Inl: "array_add r v s = (Inl e, s') \<Longrightarrow> e = Failure \<and> s' = s"
  using throws_cases [of s] by (auto simp: array_add_def split: sum.splits)

lemma update_parent_Inl: "update_parent a s = (Inl e, s') \<Longrightarrow> e = Failure \<and> s' = s"
  using throws_cases [of s] by (auto simp: update_parent_def split: sum.splits option.splits)

lemma read_node_Inl: "read_node r s = (Inl e, s') \<Longrightarrow> e = Invalid_Access \<and> s' = s"
  by (auto simp: read_node_def split: option.splits)


lemma array_create_Inr:
  "array_create ty s = (Inr r, s') \<Longrightarrow>
     r = new_ref (nodes s) \<and> nodes s' = nodes s @ [(r, Arr ty [])] \<and>
     created_leaves s' = created_leaves s"
  using throws_cases [of s] by (auto simp: array_create_def Let_def split: sum.splits)

lemma array_add_Inr:
  "array_add r v s = (Inr u, s') \<Longrightarrow>
     nodes s' = update_node r (add_slot v) (nodes s) \<and> created_leaves s' = created_leaves s"
  using throws_cases [of s] by (auto simp: array_add_def split: sum.splits)



lemma compact_form_of_Inl: "compact_form_of b n = Inl e \<Longrightarrow> e = Invalid_Access"
  by (auto simp: compact_form_of_def split: option.splits if_splits)

lemma compact_form_of_append: "compact_form_of b n = Inr True \<Longrightarrow> b"
  by (auto simp: compact_form_of_def split: option.splits if_splits)



lemma replace_root_array_Inl: "replace_root_array a l s = (Inl e, s') \<Longrightarrow> e = Failure"
  by (auto simp: replace_root_array_def Let_def then_do_Inl_iff dest: update_parent_Inl)


subsection \<open>Lookup in the store\<close>

lemma map_of_update_node:
  "map_of (update_node r f h) k = (if k = r then map_option f (map_of h k) else map_of h k)"
  by (induction h) (auto simp: update_node_def)

lemma map_of_snoc:
  "map_of (h @ [(r, n)]) k =
     (case map_of h k of None \<Rightarrow> if k = r then Some n else None | Some x \<Rightarrow> Some x)"
  by (induction h) auto

lemma keys_update_node [simp]: "map fst (update_node r f h) = map fst h"
  by (induction h) (auto simp: update_node_def)

lemma new_ref_update_node [simp]: "new_ref (update_node r f h) = new_ref h"
  by (simp add: new_ref_def)

lemma key_le_foldr_max: "k \<in> set ks \<Longrightarrow> k \<le> foldr max ks (0::nat)"
  by (induction ks) auto

lemma key_less_new_ref: "k \<in> fst ` set h \<Longrightarrow> k < new_ref h"
proof -
  assume "k \<in> fst ` set h"
  then have "k \<le> foldr max (map fst h) 0"
    by (intro key_le_foldr_max) simp
  moreover have "m < 8 * Suc (m div 8)" for m :: nat
    by simp
  ultimately show ?thesis
    unfolding new_ref_def by (rule le_less_trans)
qed

lemma new_ref_fresh: "map_of h (new_ref h) = None"
  using key_less_new_ref [of "new_ref h" h] by (auto simp: map_of_eq_None_iff)

lemma new_ref_not_live: "map_of h k = Some n \<Longrightarrow> k \<noteq> new_ref h"
  using new_ref_fresh [of h] by auto

lemma new_ref_pos: "0 < new_ref h" and new_ref_even: "even (new_ref h)"
  by (simp_all add: new_ref_def)

lemma new_ref_snoc_neq: "new_ref (h @ [(new_ref h, n)]) \<noteq> new_ref h"
  using key_less_new_ref [of "new_ref h" "h @ [(new_ref h, n)]"] by auto



lemma array_create_lookup:
  assumes "array_create ty s = (Inr r, s')"
  shows "map_of (nodes s) r = None"
    and "map_of (nodes s') = (map_of (nodes s))(r \<mapsto> Arr ty [])"
  using array_create_Inr [OF assms] new_ref_fresh [of "nodes s"]
  by (auto simp: fun_eq_iff map_add_def split: option.splits)

lemma array_add_lookup:
  assumes "array_add r v s = (Inr u, s')"
  shows "map_of (nodes s') =
     (map_of (nodes s))(r := map_option (add_slot v) (map_of (nodes s) r))"
  using array_add_Inr [OF assms] by (auto simp: map_of_update_node fun_eq_iff)





section \<open>Root growth\<close>

lemma new_accessor_cases:
  "new_accessor s = (Inl Failure, s) \<or> (\<exists>s'. new_accessor s = (Inr (), s') \<and> nodes s' = nodes s)"
  using throws_cases [of s] by (auto simp: new_accessor_def)


lemma kept_new_accessor: "kept p s0 s \<Longrightarrow> new_accessor s = (res, s') \<Longrightarrow> kept p s0 s'"
  using new_accessor_cases [of s] by (auto simp: kept_def)

lemma kept_array_create: "kept p s0 s \<Longrightarrow> array_create ty s = (res, s') \<Longrightarrow> kept p s0 s'"
proof (cases res)
  case (Inl e)
  assume "kept p s0 s" "array_create ty s = (res, s')"
  with Inl show ?thesis by (auto dest: array_create_Inl)
next
  case (Inr r)
  assume k: "kept p s0 s" and "array_create ty s = (res, s')"
  with Inr have c: "array_create ty s = (Inr r, s')" by simp
  show ?thesis
    unfolding kept_def
  proof (intro allI impI)
    fix k n assume "map_of (nodes s0) k = Some n \<and> p \<noteq> Some k"
    with k have "map_of (nodes s) k = Some n" by (auto simp: kept_def)
    with array_create_lookup [OF c] show "map_of (nodes s') k = Some n" by auto
  qed
qed


lemma kept_read_node: "kept p s0 s \<Longrightarrow> read_node r s = (res, s') \<Longrightarrow> kept p s0 s'"
  by (auto simp: read_node_def split: option.splits)

lemma kept_REALM_ASSERT: "kept p s0 s \<Longrightarrow> REALM_ASSERT c s = (res, s') \<Longrightarrow> kept p s0 s'"
  by (auto simp: REALM_ASSERT_def split: if_splits)

lemma kept_array_add:
  assumes "kept p s0 s" and "kept p s0 sc" and "array_create ty sc = (Inr r, sc')"
    and "array_add r v s = (res, s')"
  shows "kept p s0 s'"
proof (cases res)
  case (Inl e)
  with assms show ?thesis by (auto dest: array_add_Inl)
next
  case (Inr u)
  with assms have a: "array_add r v s = (Inr u, s')" by simp
  have fresh: "map_of (nodes sc) r = None"
    using array_create_lookup(1) [OF assms(3)] .
  show ?thesis
    unfolding kept_def
  proof (intro allI impI)
    fix k n assume kn: "map_of (nodes s0) k = Some n \<and> p \<noteq> Some k"
    with assms(1) have "map_of (nodes s) k = Some n" by (auto simp: kept_def)
    moreover from kn assms(2) have "map_of (nodes sc) k = Some n" by (auto simp: kept_def)
    with fresh have "k \<noteq> r" by auto
    ultimately show "map_of (nodes s') k = Some n"
      by (simp add: array_add_lookup [OF a])
  qed
qed


lemma kept_pair: "kept p s0 s \<Longrightarrow> (x, s) = (res, s') \<Longrightarrow> kept p s0 s'"
  by simp

lemmas kept_intros = kept_new_accessor kept_array_create kept_read_node kept_REALM_ASSERT
  kept_array_add kept_pair


section \<open>The claims about root growth, export and the defaults\<close>









text \<open>
  Claim C7. \<^verbatim>\<open>compact_form\<close> is only ever true when \<open>is_append\<close> is, so the assertion
  \<^verbatim>\<open>REALM_ASSERT(!compact_form || is_append)\<close> never fails: no call of
  \<^verbatim>\<open>introduce_new_root\<close> ends in \<open>Assertion_Failed\<close>.
\<close>
theorem introduce_new_root_assertion_holds:
  "(compact_form_of is_append orig = Inr True \<longrightarrow> is_append) \<and>
   fst (introduce_new_root orig_root new_sibling_ref state is_append s) \<noteq> Inl Assertion_Failed"
proof
  show "compact_form_of is_append orig = Inr True \<longrightarrow> is_append"
    by (auto dest: compact_form_of_append)
next
  have "e \<noteq> Assertion_Failed"
    if "introduce_new_root orig_root new_sibling_ref state is_append s = (Inl e, s')" for e s'
    using that unfolding introduce_new_root_def Let_def then_do_Inl_iff
    by (auto simp: REALM_ASSERT_def then_do_Inl_iff split: if_splits
        dest!: new_accessor_Inl array_create_Inl array_add_Inl update_parent_Inl read_node_Inl
          compact_form_of_Inl replace_root_array_Inl dest: compact_form_of_append)
  then show "fst (introduce_new_root orig_root new_sibling_ref state is_append s) \<noteq> Inl Assertion_Failed"
    by (cases "introduce_new_root orig_root new_sibling_ref state is_append s") auto
qed

theorem introduce_new_root_assertion_holds_witness:
  "compact_form_of True (Leaf 4) = Inr True \<and>
   fst (introduce_new_root \<lparr>m_ref = 16, m_parent = Some 8, m_ndx_in_parent = 0\<rparr> 24
       \<lparr>m_split_offset = 4, m_split_size = 6\<rparr> True
       \<lparr>nodes = [(8, Arr type_HasRefs [16]), (16, Leaf 4), (24, Leaf 2)],
          fail_in = None, created_leaves = []\<rparr>) \<noteq> Inl Assertion_Failed"
proof -
  have "compact_form_of True (Leaf 4) = Inr True"
    by (simp add: compact_form_of_def)
  with introduce_new_root_assertion_holds
    [of True "Leaf 4" "\<lparr>m_ref = 16, m_parent = Some 8, m_ndx_in_parent = 0\<rparr>" 24
      "\<lparr>m_split_offset = 4, m_split_size = 6\<rparr>"
      "\<lparr>nodes = [(8, Arr type_HasRefs [16]), (16, Leaf 4), (24, Leaf 2)],
          fail_in = None, created_leaves = []\<rparr>"]
  show ?thesis by simp
qed

text \<open>
  Claim C8. \<^verbatim>\<open>write\<close> asserts that its root is an inner B+-tree node: on any other root
  the assertion fires, and on an inner node the call is exactly the call of
  \<^verbatim>\<open>write_subtree\<close>.
\<close>
theorem write_requires_inner_root:
  "(\<not> is_inner_bptree_node root_array \<longrightarrow>
      write_slice write_subtree root_array slice_offset slice_size table_size handler out
        = Inl Assertion_Failed) \<and>
   (is_inner_bptree_node root_array \<longrightarrow>
      write_slice write_subtree root_array slice_offset slice_size table_size handler out
        = Inr (write_subtree root_array slice_offset slice_size table_size handler out))"
  by (simp add: write_slice_def)

theorem write_requires_inner_root_witness:
  "\<not> is_inner_bptree_node (Leaf 3) \<and>
   write_slice (\<lambda>r off sz tsz (h::unit) (out::unit). r) (Leaf 3) 0 3 3 () () = Inl Assertion_Failed \<and>
   is_inner_bptree_node (Arr type_InnerBptreeNode [9, 8, 24, 11]) \<and>
   write_slice (\<lambda>r off sz tsz (h::unit) (out::unit). r) (Arr type_InnerBptreeNode [9, 8, 24, 11]) 0 5 5 () ()
     = Inr (Arr type_InnerBptreeNode [9, 8, 24, 11])"
  using write_requires_inner_root [of "Leaf 3" "\<lambda>r off sz tsz (h::unit) (out::unit). r" 0 3 3 "()" "()"]
    write_requires_inner_root [of "Arr type_InnerBptreeNode [9, 8, 24, 11]"
      "\<lambda>r off sz tsz (h::unit) (out::unit). r" 0 5 5 "()" "()"]
  by simp

text \<open>
  Claim C9. The defaults of \<^verbatim>\<open>ColumnBase\<close>, for every column and row index:
  \<^verbatim>\<open>is_nullable\<close> and \<^verbatim>\<open>is_null\<close> return false, \<^verbatim>\<open>set_null\<close> raises the logic error
  \<open>column_not_nullable\<close> and \<^verbatim>\<open>set_string\<close> raises \<open>type_mismatch\<close>, two different
  errors, and both leave the column as it was.
\<close>
theorem column_base_defaults:
  "\<not> is_nullable c \<and> \<not> is_null c ndx \<and>
   set_null c ndx = (Inl (LogicError column_not_nullable), c) \<and>
   set_string c ndx v = (Inl (LogicError type_mismatch), c) \<and>
   LogicError column_not_nullable \<noteq> LogicError type_mismatch"
  by (simp add: is_nullable_def is_null_def set_null_def set_string_def)


lemma throws_succeeds:
  "fail_in s \<noteq> Some 0 \<Longrightarrow>
     \<exists>s'. throws s = Inr s' \<and> nodes s' = nodes s \<and> created_leaves s' = created_leaves s"
  by (cases "fail_in s") (auto simp: throws_def)

lemma create_leaf_succeeds:
  assumes "fail_in s \<noteq> Some 0"
  shows "\<exists>s'. create_leaf n s = (Inr (new_ref (nodes s)), s') \<and>
     nodes s' = nodes s @ [(new_ref (nodes s), Leaf n)] \<and>
     created_leaves s' = created_leaves s @ [n]"
proof -
  from assms have "fail_in (s\<lparr>created_leaves := created_leaves s @ [n]\<rparr>) \<noteq> Some 0"
    by simp
  from throws_succeeds [OF this] show ?thesis
    by (auto simp: create_leaf_def Let_def)
qed

text \<open>
  Claim C10. Called with a count of 0 and \<open>fixed_height\<close> 0 or 1, and with a leaf
  callback that does not raise, \<^verbatim>\<open>build\<close> returns: it calls \<^verbatim>\<open>create_leaf\<close> once, with
  size 0, allocates nothing else, and returns the ref of that leaf and a remaining count
  of 0.
\<close>

theorem build_zero_count:
  assumes "fail_in s \<noteq> Some 0" and "fixed_height \<le> 1"
  shows "\<exists>s'. build (Suc (Suc k)) F 0 fixed_height s = Some (Inr (new_ref (nodes s), 0), s') \<and>
     nodes s' = nodes s @ [(new_ref (nodes s), Leaf 0)] \<and>
     created_leaves s' = created_leaves s @ [0]"
proof -
  from create_leaf_succeeds [OF assms(1)] obtain s1 where
    "create_leaf 0 s = (Inr (new_ref (nodes s)), s1)"
    and "nodes s1 = nodes s @ [(new_ref (nodes s), Leaf 0)]"
    and "created_leaves s1 = created_leaves s @ [0]"
    by blast
  moreover have "build_loop (Suc k) F fixed_height 0 0 F (new_ref (nodes s)) 1 s1
      = Some (Inr (new_ref (nodes s), 0), s1)"
    using assms(2) by (auto simp: build_loop_Suc build_loop_body_def)
  ultimately show ?thesis
    by (simp add: build_Suc build_body_def)
qed

theorem build_zero_count_witness:
  "fail_in \<lparr>nodes = [], fail_in = None, created_leaves = []\<rparr> \<noteq> Some 0 \<and> (1::nat) \<le> 1 \<and>
   (\<exists>s'. build 2 4 0 1 \<lparr>nodes = [], fail_in = None, created_leaves = []\<rparr>
            = Some (Inr (8, 0), s') \<and>
          nodes s' = [(8, Leaf 0)] \<and> created_leaves s' = [0])"
  using build_zero_count [of "\<lparr>nodes = [], fail_in = None, created_leaves = []\<rparr>" 1 0 4]
  by (simp add: new_ref_def numeral_2_eq_2)

end
